theory Spec2Isabelle
  imports Main "HOL-Library.Sublist"
begin

section \<open>Values, exceptions and user-interface events\<close>

text \<open>
  A cell of the source table. A sheet read through the spreadsheet API holds strings;
  a table parsed from an uploaded CSV file may hold numbers in a numeric column and the
  missing-value marker NaN where a field is empty.
\<close>

datatype cell = CStr string | CInt int | CNaN

text \<open>
  Instances of Python's \<open>Exception\<close> class, which is what \<open>except Exception\<close> catches.
  \<open>IndexError\<close> is what indexing a list out of range raises, \<open>TypeError\<close> what
  \<open>str.replace\<close> raises for an argument that is not a string, and \<open>Exception msg\<close> is
  any exception of an external collaborator, with its message.
\<close>

datatype exn = IndexError | TypeError | Exception string

fun str_exn :: "exn \<Rightarrow> string" where
  "str_exn IndexError = ''list index out of range''"
| "str_exn TypeError = ''replace() argument 2 must be str''"
| "str_exn (Exception msg) = msg"

text \<open>
  What the script shows to the user (\<open>st.write\<close>, \<open>st.error\<close>, \<open>st.warning\<close>,
  \<open>st.success\<close>, \<open>progress_bar.progress\<close>, the rendered tables and the download
  button, each table as its rows) and the one remote write it issues, in the order of
  execution. \<open>St_progress k n\<close> is the fraction \<open>k / n\<close>.
\<close>

datatype event =
    St_write string
  | St_error string
  | St_warning string
  | St_success string
  | St_progress nat nat
  | St_markdown string
  | St_html "cell list list"
  | St_dataframe "cell list list"
  | St_download_button string "cell list list" string string
  | St_spinner string
  | Values_update string string string "cell list list"

section \<open>Python's string and list primitives\<close>

text \<open>\<open>s.split(sep)\<close> for a separator of one character.\<close>

fun split :: "char \<Rightarrow> string \<Rightarrow> string list" where
  "split sep [] = [[]]"
| "split sep (c # cs) =
     (if c = sep then [] # split sep cs
      else (case split sep cs of
              segment # segments \<Rightarrow> (c # segment) # segments
            | [] \<Rightarrow> [[c]]))"

text \<open>\<open>xs[i]\<close> for a non-negative index: out of range raises \<open>IndexError\<close>.\<close>

definition index :: "'a list \<Rightarrow> nat \<Rightarrow> exn + 'a" where
  "index xs i = (if i < length xs then Inr (xs ! i) else Inl IndexError)"

text \<open>
  \<open>s.replace(old, new)\<close> on strings: every occurrence of \<open>old\<close>, found from the left
  and not overlapping an earlier one, becomes \<open>new\<close>. For the empty \<open>old\<close> Python
  puts \<open>new\<close> before every character and at the end.
\<close>

function replace :: "string \<Rightarrow> string \<Rightarrow> string \<Rightarrow> string" where
  "replace old new s =
     (if old = [] then new @ concat (map (\<lambda>c. c # new) s)
      else if s = [] then []
      else if prefix old s then new @ replace old new (drop (length old) s)
      else hd s # replace old new (tl s))"
  by pat_completeness auto
termination
  by (relation "measure (\<lambda>(old, new, s). length s)") auto

declare replace.simps [simp del]

text \<open>
  \<open>Series.unique()\<close> of pandas: the distinct values in order of appearance, found with
  a table of the values seen so far.
\<close>

fun unique_from :: "'a list \<Rightarrow> 'a list \<Rightarrow> 'a list" where
  "unique_from seen [] = []"
| "unique_from seen (x # xs) =
     (if x \<in> set seen then unique_from seen xs else x # unique_from (x # seen) xs)"

definition unique :: "'a list \<Rightarrow> 'a list" where
  "unique xs = unique_from [] xs"

text \<open>
  The specification's wording of the same: the values at the positions where a value
  occurs for the first time, in the order of those positions.
\<close>

definition first_occurrences :: "'a list \<Rightarrow> 'a list" where
  "first_occurrences xs =
     map (\<lambda>i. xs ! i) (filter (\<lambda>i. xs ! i \<notin> set (take i xs)) [0..<length xs])"

text \<open>\<open>str(n)\<close> for the integers that the script formats into messages.\<close>

function str_nat :: "nat \<Rightarrow> string" where
  "str_nat n =
     (if n < 10 then [char_of (48 + n)]
      else str_nat (n div 10) @ [char_of (48 + n mod 10)])"
  by pat_completeness auto
termination
  by (relation "measure id") auto

declare str_nat.simps [simp del]

definition str_int :: "int \<Rightarrow> string" where
  "str_int i = (if i < 0 then CHR ''-'' # str_nat (nat (- i)) else str_nat (nat i))"

fun str_cell :: "cell \<Rightarrow> string" where
  "str_cell (CStr s) = s"
| "str_cell (CInt i) = str_int i"
| "str_cell CNaN = ''nan''"

text \<open>Sequencing inside a \<open>try\<close> block: the first exception ends the block.\<close>

definition and_then :: "exn + 'a \<Rightarrow> ('a \<Rightarrow> exn + 'b) \<Rightarrow> exn + 'b" where
  "and_then r f = (case r of Inl e \<Rightarrow> Inl e | Inr v \<Rightarrow> f v)"

section \<open>Spreadsheet helpers\<close>

text \<open>
  The external collaborators of the spreadsheet helpers, as the outcomes of their calls:
  loading the service-account credentials, building the service, executing a
  \<open>values().get\<close> and a \<open>values().update\<close> request, and the data-frame constructor of
  pandas applied to the rows and the column names.
\<close>

record ('cred, 'svc, 'df, 'res) sheets_api =
  from_service_account_file :: "exn + 'cred"
  build :: "'cred \<Rightarrow> exn + 'svc"
  values_get :: "'svc \<Rightarrow> string \<Rightarrow> string \<Rightarrow> exn + (string \<rightharpoonup> string list list)"
  values_update :: "'svc \<Rightarrow> string \<Rightarrow> string \<Rightarrow> string \<Rightarrow> cell list list \<Rightarrow> exn + 'res"
  DataFrame :: "string list list \<Rightarrow> string list \<Rightarrow> exn + 'df"

definition get_google_sheets_service ::
  "('cred, 'svc, 'df, 'res) sheets_api \<Rightarrow> exn + 'svc" where
  "get_google_sheets_service api = and_then (from_service_account_file api) (build api)"

text \<open>\<open>d.get(key, [])\<close> on a dictionary.\<close>

definition dict_get :: "(string \<rightharpoonup> 'a list) \<Rightarrow> string \<Rightarrow> 'a list" where
  "dict_get d k = (case d k of None \<Rightarrow> [] | Some v \<Rightarrow> v)"

text \<open>
  A helper returns its result, or the exception that leaves it, together with the
  messages it has shown.
\<close>

definition read_google_sheet ::
  "('cred, 'svc, 'df, 'res) sheets_api \<Rightarrow> string \<Rightarrow> string \<Rightarrow> (exn + 'df option) \<times> event list" where
  "read_google_sheet api spreadsheet_id range_name =
     (case and_then (get_google_sheets_service api) (\<lambda>service.
           and_then (values_get api service spreadsheet_id range_name) (\<lambda>sheet_data.
           and_then (index (dict_get sheet_data ''values'') 0) (\<lambda>columns.
           DataFrame api (drop 1 (dict_get sheet_data ''values'')) columns))) of
        Inr df \<Rightarrow> (Inr (Some df), [])
      | Inl e \<Rightarrow> (Inr None, [St_error (''Error reading Google Sheet: '' @ str_exn e)]))"

definition update_google_sheet ::
  "('cred, 'svc, 'df, 'res) sheets_api \<Rightarrow> string \<Rightarrow> string \<Rightarrow> cell list list \<Rightarrow> (exn + 'res) \<times> event list" where
  "update_google_sheet api spreadsheet_id range_name data =
     (case get_google_sheets_service api of
        Inl e \<Rightarrow> (Inl e, [St_error (''Error updating Google Sheet: '' @ str_exn e)])
      | Inr service \<Rightarrow>
          (case values_update api service spreadsheet_id range_name ''RAW'' data of
             Inr result \<Rightarrow> (Inr result, [Values_update spreadsheet_id range_name ''RAW'' data])
           | Inl e \<Rightarrow>
               (Inl e, [Values_update spreadsheet_id range_name ''RAW'' data,
                        St_error (''Error updating Google Sheet: '' @ str_exn e)])))"

section \<open>Web search\<close>

record 'item response =
  status_code :: int
  reason :: string
  response_text :: string
  json :: "exn + (string \<rightharpoonup> 'item list)"

record search_params =
  q :: string
  api_key :: "string option"
  num :: int

text \<open>The quota that the script hands to the decorators of the \<open>ratelimit\<close> library.\<close>

definition MAX_CALLS :: nat where
  "MAX_CALLS = 15"

definition PERIOD :: nat where
  "PERIOD = 60"

text \<open>
  The body of \<open>search_web\<close>; \<open>requests_get\<close> is the outcome of the HTTP request for a
  URL and its parameters. The decorators around the body belong to the library: they
  delay a call and then run this body.
\<close>

definition search_web ::
  "(string \<Rightarrow> search_params \<Rightarrow> exn + 'item response) \<Rightarrow> string option \<Rightarrow> string \<Rightarrow>
     (exn + 'item list) \<times> event list" where
  "search_web requests_get SERP_API_KEY query =
     (let search_url = ''https://serpapi.com/search'';
          params = \<lparr>q = query, api_key = SERP_API_KEY, num = 1\<rparr>
      in case requests_get search_url params of
           Inl e \<Rightarrow>
             (Inr [], [St_error (''An exception occurred while querying SerpAPI: '' @ str_exn e)])
         | Inr response \<Rightarrow>
             if status_code response = 200 then
               (case json response of
                  Inl e \<Rightarrow>
                    (Inr [], [St_error (''An exception occurred while querying SerpAPI: '' @ str_exn e)])
                | Inr body \<Rightarrow> (Inr (dict_get body ''organic_results''), []))
             else
               (Inr [],
                [St_error (''SerpAPI error: '' @ str_int (status_code response) @ '' - '' @ reason response),
                 St_error (''Response content: '' @ response_text response)]))"

section \<open>Model query\<close>

record message =
  content :: "string option"

record choice =
  message :: message

record chat_completion =
  choices :: "choice list"

definition system_content :: string where
  "system_content =
     ''You are a data extraction assistant designed to help users retrieve specific '' @
     ''information from various sources like CSV files, Google Sheets, and web searches. '' @
     ''Your task is to analyze user queries and extract relevant data based on the provided context. '' @
     ''You can utilize tools such as a web search and data extraction APIs to gather necessary information. '' @
     ''Please provide concise and accurate results in the format requested by the user, '' @
     ''and ensure that the answers are tailored to the specific data source (CSV or Google Sheets).''"

text \<open>
  \<open>create\<close> is the outcome of the chat-completion request for a list of messages (role
  and content) and a model name. The function returns a string, or Python's \<open>None\<close>
  where the first choice carries no text.
\<close>

definition query_groq ::
  "((string \<times> string) list \<Rightarrow> string \<Rightarrow> exn + chat_completion) \<Rightarrow> string \<Rightarrow>
     (exn + string option) \<times> event list" where
  "query_groq create prompt =
     (case and_then
             (create [(''system'', system_content), (''user'', prompt)] ''mixtral-8x7b-32768'')
             (\<lambda>chat_completion. index (choices chat_completion) 0) of
        Inr c \<Rightarrow> (Inr (content (message c)), [])
      | Inl e \<Rightarrow> (Inr (Some ''Error''), [St_error (''Groq API error: '' @ str_exn e)]))"

section \<open>Reading the spreadsheet URL\<close>

text \<open>
  The branch of the script for the data source "Google Sheets": the result is the data
  frame \<open>df\<close> and \<open>spreadsheet_id\<close>, both \<open>None\<close> at the start, and the messages shown.
\<close>

definition google_sheets_input ::
  "('cred, 'svc, 'df, 'res) sheets_api \<Rightarrow> string \<Rightarrow> ('df option \<times> string option) \<times> event list" where
  "google_sheets_input api google_sheet_url =
     (if google_sheet_url = [] then ((None, None), [])
      else
        case index (split CHR ''/'' google_sheet_url) 5 of
          Inl e \<Rightarrow> ((None, None), [St_error (''Error processing Google Sheets URL: '' @ str_exn e)])
        | Inr spreadsheet_id \<Rightarrow>
            if spreadsheet_id = [] then
              ((None, Some spreadsheet_id), [St_error ''Invalid Google Sheets URL''])
            else
              (case read_google_sheet api spreadsheet_id ''Sheet1'' of
                 (Inr df, shown) \<Rightarrow> ((df, Some spreadsheet_id), shown)
               | (Inl e, shown) \<Rightarrow>
                   ((None, Some spreadsheet_id),
                    shown @ [St_error (''Error processing Google Sheets URL: '' @ str_exn e)])))"

section \<open>Batch extraction\<close>

record extraction_record =
  Entity :: cell
  Extracted_Data :: string

text \<open>
  The agent is external and has state of its own (the remote services): one run takes
  the prompt and the state of the world and returns the answer, or the exception it
  raises, and the next state of the world.
\<close>

type_synonym 'w agent = "string \<Rightarrow> 'w \<Rightarrow> (exn + string) \<times> 'w"

record 'w state =
  world :: 'w
  extracted_data :: "extraction_record list"
  shown :: "event list"

definition st :: "event \<Rightarrow> 'w state \<Rightarrow> 'w state" where
  "st ev s = s\<lparr>shown := shown s @ [ev]\<rparr>"

definition append_record :: "cell \<Rightarrow> string \<Rightarrow> 'w state \<Rightarrow> 'w state" where
  "append_record entity data s =
     s\<lparr>extracted_data := extracted_data s @ [\<lparr>Entity = entity, Extracted_Data = data\<rparr>]\<rparr>"

text \<open>
  \<open>prompt_template.replace("{entity}", entity)\<close>: the method takes strings only and
  raises \<open>TypeError\<close> for any other argument, before it looks at the template.
\<close>

definition format_prompt :: "string \<Rightarrow> cell \<Rightarrow> exn + string" where
  "format_prompt prompt_template entity =
     (case entity of
        CStr s \<Rightarrow> Inr (replace ''{entity}'' s prompt_template)
      | _ \<Rightarrow> Inl TypeError)"

text \<open>
  The loop over \<open>enumerate(df[main_column].unique())\<close>. An exception that leaves the
  loop ends the script: the result is that exception, if any, and the state reached.
\<close>

fun extraction_loop ::
  "'w agent \<Rightarrow> string \<Rightarrow> nat \<Rightarrow> (nat \<times> cell) list \<Rightarrow> 'w state \<Rightarrow> exn option \<times> 'w state" where
  "extraction_loop agent prompt_template total_entities [] s = (None, s)"
| "extraction_loop agent prompt_template total_entities ((idx, entity) # rest) s =
     (case format_prompt prompt_template entity of
        Inl e \<Rightarrow> (Some e, s)
      | Inr formatted_prompt \<Rightarrow>
          let s1 = st (St_write (''Running extraction for: '' @ str_cell entity)) s;
              (agent_response, w) = agent formatted_prompt (world s1);
              s2 = s1\<lparr>world := w\<rparr>;
              s3 = (case agent_response of
                      Inr answer \<Rightarrow> append_record entity answer s2
                    | Inl e \<Rightarrow>
                        append_record entity ''Error during extraction''
                          (st (St_error (''Error processing '' @ str_cell entity @ '': '' @ str_exn e)) s2));
              s4 = st (St_progress (idx + 1) total_entities) s3
          in extraction_loop agent prompt_template total_entities rest s4)"

text \<open>\<open>extracted_df.values.tolist()\<close>: one row per record, entity first.\<close>

definition values_tolist :: "extraction_record list \<Rightarrow> cell list list" where
  "values_tolist extracted_df = map (\<lambda>r. [Entity r, CStr (Extracted_Data r)]) extracted_df"

definition scrollable_table_style :: string where
  "scrollable_table_style = ''\<newline>                <style>\<newline>                .scrollable-table {\<newline>                    overflow-x: auto;\<newline>                    display: block;\<newline>                    white-space: nowrap;\<newline>                }\<newline>                </style>\<newline>                ''"

definition scrollable_table_open :: string where
  \<open>scrollable_table_open = ''<div class="scrollable-table">''\<close>

datatype data_source = Upload_CSV | Google_Sheets

text \<open>The body of the button "Update Google Sheet".\<close>

definition sync_google_sheet ::
  "('cred, 'svc, 'df, 'res) sheets_api \<Rightarrow> string \<Rightarrow> 'w state \<Rightarrow> 'w state" where
  "sync_google_sheet api spreadsheet_id s =
     (let s1 = st (St_dataframe (values_tolist (extracted_data s)))
                 (st (St_write ''Preview of data to be updated:'')
                   (st (St_spinner ''Updating Google Sheet...'') s));
          header = [[CStr ''Entity'', CStr ''Extracted Data'']];
          data_rows = values_tolist (extracted_data s);
          data_to_update = header @ data_rows
      in case update_google_sheet api spreadsheet_id ''Sheet1!C1'' data_to_update of
           (Inr result, evs) \<Rightarrow>
             st (St_success ''Google Sheet updated successfully!'') (s1\<lparr>shown := shown s1 @ evs\<rparr>)
         | (Inl e, evs) \<Rightarrow>
             st (St_error (''Failed to update Google Sheet: '' @ str_exn e)) (s1\<lparr>shown := shown s1 @ evs\<rparr>))"

text \<open>
  Streamlit runs the whole script again after every interaction of the user, and
  \<open>st.button\<close> returns \<open>True\<close> only in the run that a click on that very button has
  caused. A run of the script is therefore given the button whose click caused it, if any.
\<close>

datatype button = Run_Data_Extraction | Update_Google_Sheet

definition st_button :: "button option \<Rightarrow> button \<Rightarrow> bool" where
  "st_button clicked b = (clicked = Some b)"

text \<open>
  The part of the script from \<open>if st.button("Run Data Extraction")\<close> on, in one run of
  the script, for the selected column \<open>df[main_column]\<close>, the template, the data source
  and \<open>spreadsheet_id\<close>. The button "Update Google Sheet" is created inside the body of
  the first button, as in the script.
\<close>

definition run_data_extraction ::
  "('cred, 'svc, 'df, 'res) sheets_api \<Rightarrow> 'w agent \<Rightarrow> data_source \<Rightarrow> string option \<Rightarrow>
     cell list \<Rightarrow> string \<Rightarrow> button option \<Rightarrow> 'w \<Rightarrow> exn option \<times> 'w state" where
  "run_data_extraction api agent data_source spreadsheet_id column prompt_template clicked w =
     (if \<not> st_button clicked Run_Data_Extraction then
        (None, \<lparr>world = w, extracted_data = [], shown = []\<rparr>)
      else
        let s0 = \<lparr>world = w, extracted_data = [], shown = [St_progress 0 1]\<rparr>;
            total_entities = length (unique column)
        in case extraction_loop agent prompt_template total_entities
                  (enumerate 0 (unique column)) s0 of
             (Some e, s) \<Rightarrow> (Some e, s)
           | (None, s) \<Rightarrow>
               if extracted_data s \<noteq> [] then
                 let extracted_df = values_tolist (extracted_data s);
                     s1 = st (St_download_button ''Download Extracted Data'' extracted_df
                                ''extracted_data.csv'' ''text/csv'')
                            (st (St_markdown ''</div>'')
                              (st (St_html extracted_df)
                                (st (St_markdown scrollable_table_open)
                                  (st (St_markdown scrollable_table_style)
                                    (st (St_write ''Extracted Data'') s)))))
                 in if data_source = Google_Sheets \<and> spreadsheet_id \<noteq> None
                         \<and> spreadsheet_id \<noteq> Some [] then
                      (if st_button clicked Update_Google_Sheet then
                         (None, sync_google_sheet api (the spreadsheet_id) s1)
                       else (None, s1))
                    else (None, s1)
               else (None, st (St_warning ''No extracted data to display.'') s))"

section \<open>Concrete collaborators for the examples\<close>

definition quota_create :: "(string \<times> string) list \<Rightarrow> string \<Rightarrow> exn + chat_completion" where
  "quota_create messages model = Inl (Exception ''quota exceeded'')"

definition offline_api :: "(unit, unit, unit, unit) sheets_api" where
  "offline_api =
     \<lparr>from_service_account_file = Inl (Exception ''credentials file not found''),
      build = (\<lambda>cred. Inr ()),
      values_get = (\<lambda>service spreadsheet_id range_name. Inr Map.empty),
      values_update = (\<lambda>service spreadsheet_id range_name option data. Inr ()),
      DataFrame = (\<lambda>rows columns. Inr ())\<rparr>"

definition found_get :: "string \<Rightarrow> search_params \<Rightarrow> exn + string response" where
  "found_get url params =
     Inr \<lparr>status_code = 200, reason = ''OK'', response_text = ''{...}'',
          json = Inr [''organic_results'' \<mapsto> [''first hit for '' @ q params]]\<rparr>"

definition refused_get :: "string \<Rightarrow> search_params \<Rightarrow> exn + string response" where
  "refused_get url params = Inl (Exception ''connection refused'')"

section \<open>Notions for stating the properties of the batch\<close>

text \<open>A cell that is a Python string.\<close>

fun is_str :: "cell \<Rightarrow> bool" where
  "is_str (CStr s) = True"
| "is_str (CInt i) = False"
| "is_str CNaN = False"

text \<open>
  The outcomes of running the agent on a list of prompts, one after the other, from a
  state of the world.
\<close>

fun agent_outcomes :: "'w agent \<Rightarrow> string list \<Rightarrow> 'w \<Rightarrow> (exn + string) list" where
  "agent_outcomes agent [] w = []"
| "agent_outcomes agent (p # ps) w =
     (case agent p w of (outcome, w') \<Rightarrow> outcome # agent_outcomes agent ps w')"

text \<open>The record that the specification asks for an entity and the outcome of its run.\<close>

definition record_of :: "cell \<Rightarrow> exn + string \<Rightarrow> extraction_record" where
  "record_of entity outcome =
     \<lparr>Entity = entity,
      Extracted_Data = (case outcome of Inr answer \<Rightarrow> answer | Inl e \<Rightarrow> ''Error during extraction'')\<rparr>"

text \<open>The prompts of a list of string entities.\<close>

definition prompts :: "string \<Rightarrow> cell list \<Rightarrow> string list" where
  "prompts prompt_template entities =
     map (\<lambda>entity. replace ''{entity}'' (str_cell entity) prompt_template) entities"

section \<open>Concrete agents for the examples\<close>

definition echo_agent :: "unit agent" where
  "echo_agent prompt w = (Inr (''answer to: '' @ prompt), w)"

definition picky_agent :: "unit agent" where
  "picky_agent prompt w =
     (if prompt = ''find B'' then (Inl (Exception ''timed out''), w) else (Inr ''found'', w))"

section \<open>The remote write among the events\<close>

fun is_update :: "event \<Rightarrow> bool" where
  "is_update (Values_update spreadsheet_id range_name option data) = True"
| "is_update ev = False"

section \<open>A spreadsheet service that answers, for the examples\<close>

definition online_api :: "(unit, unit, unit, unit) sheets_api" where
  "online_api =
     \<lparr>from_service_account_file = Inr (),
      build = (\<lambda>cred. Inr ()),
      values_get = (\<lambda>service spreadsheet_id range_name. Inr Map.empty),
      values_update = (\<lambda>service spreadsheet_id range_name option data. Inr ()),
      DataFrame = (\<lambda>rows columns. Inr ())\<rparr>"

section \<open>The rate limiter of the search tool\<close>

text \<open>Modelled from the spec: the state of the rate limiter that the decorators of the
  \<open>ratelimit\<close> library keep around \<open>search_web\<close>; the library is not among the sources.
  The specification gives the state as a counter of calls and a timestamp, shared by all
  search calls. Times are in seconds.
\<close>

record limiter =
  last_reset :: nat
  num_calls :: nat

text \<open>Modelled from the spec: the limiter when the script is loaded, with no call counted.\<close>

definition new_limiter :: "nat \<Rightarrow> limiter" where
  "new_limiter now = \<lparr>last_reset = now, num_calls = 0\<rparr>"

text \<open>Modelled from the spec: one call that reaches the limiter at the time \<open>now\<close>; the
  result is the time at which the call starts and the next state. The counter is reset
  once 60 seconds have passed since the timestamp; a call within the quota of 15 starts
  at once; a call beyond the quota blocks its caller until the window has ended and
  starts then, as the first call of the next window. No call is rejected.
\<close>

definition admit :: "limiter \<Rightarrow> nat \<Rightarrow> nat \<times> limiter" where
  "admit L now =
     (let L1 = (if PERIOD \<le> now - last_reset L then \<lparr>last_reset = now, num_calls = 0\<rparr> else L)
      in if num_calls L1 < MAX_CALLS then (now, L1\<lparr>num_calls := num_calls L1 + 1\<rparr>)
         else (last_reset L1 + PERIOD, \<lparr>last_reset = last_reset L1 + PERIOD, num_calls = 1\<rparr>))"

text \<open>Modelled from the spec: the calls of one run, made one after the other by the single
  thread of the script: the caller asks for the calls at the times \<open>ts\<close>, and cannot ask
  for a call before the call before it has started. The result gives, for every call,
  the time at which it starts and the timestamp of the window in which it is counted.
\<close>

fun dispatch :: "limiter \<Rightarrow> nat \<Rightarrow> nat list \<Rightarrow> (nat \<times> nat) list" where
  "dispatch L now [] = []"
| "dispatch L now (t # ts) =
     (case admit L (max now t) of
        (start, L') \<Rightarrow> (start, last_reset L') # dispatch L' start ts)"

text \<open>
  The number of calls that start within the 60 seconds from the time \<open>a\<close> on, and the
  states in which the counter is within the quota and the timestamp is not in the future.
\<close>

definition started_within :: "nat \<Rightarrow> nat list \<Rightarrow> nat" where
  "started_within a starts = length (filter (\<lambda>s. a \<le> s \<and> s < a + PERIOD) starts)"

definition limiter_ok :: "limiter \<Rightarrow> nat \<Rightarrow> bool" where
  "limiter_ok L now = (num_calls L \<le> MAX_CALLS \<and> last_reset L \<le> now)"

text \<open>Fifteen calls asked for at second 59 and fifteen more at second 60.\<close>

definition burst :: "nat list" where
  "burst = replicate 15 59 @ replicate 15 60"

section \<open>The model query never raises\<close>

text \<open>
  C4. Whatever the chat-completion request does, \<open>query_groq\<close> returns a value and no
  exception leaves it. When the request raises, the value is the string "Error" and one
  error message is shown; the same holds when the response carries no choice, since the
  indexing then raises inside the \<open>try\<close> block. Otherwise the value is the content of the
  message of the first choice.
\<close>

theorem query_groq_error_or_first_text:
  "(\<exists>v. fst (query_groq create prompt) = Inr v)
   \<and> (create [(''system'', system_content), (''user'', prompt)] ''mixtral-8x7b-32768'' = Inl e
        \<longrightarrow> query_groq create prompt = (Inr (Some ''Error''), [St_error (''Groq API error: '' @ str_exn e)]))
   \<and> (create [(''system'', system_content), (''user'', prompt)] ''mixtral-8x7b-32768'' = Inr cc
        \<and> choices cc = []
        \<longrightarrow> fst (query_groq create prompt) = Inr (Some ''Error''))
   \<and> (create [(''system'', system_content), (''user'', prompt)] ''mixtral-8x7b-32768'' = Inr cc
        \<and> choices cc = c # cs
        \<longrightarrow> query_groq create prompt = (Inr (content (message c)), []))"
  unfolding query_groq_def and_then_def index_def
  by (cases "create [(''system'', system_content), (''user'', prompt)] ''mixtral-8x7b-32768''")
     (simp_all split: sum.splits)

theorem query_groq_witness:
  "query_groq quota_create ''Get the email address of A''
     = (Inr (Some ''Error''), [St_error ''Groq API error: quota exceeded''])"
  using query_groq_error_or_first_text [of quota_create "''Get the email address of A''" "Exception ''quota exceeded''"]
  by (simp add: quota_create_def)

section \<open>Reading the spreadsheet URL: the identifier is the sixth segment\<close>

lemma split_example:
  "split CHR ''/'' ''https://docs.google.com/spreadsheets/d/SHEETID/edit''
     = [''https:'', '''', ''docs.google.com'', ''spreadsheets'', ''d'', ''SHEETID'', ''edit'']"
  by simp

lemma split_short_example:
  "split CHR ''/'' ''https://docs.google.com/SHEETID'' = [''https:'', '''', ''docs.google.com'', ''SHEETID'']"
  by simp

text \<open>
  C5. The URL "https://docs.google.com/spreadsheets/d/SHEETID/edit" gives the identifier
  "SHEETID"; in general a URL with at least six segments between "/" gives its sixth
  segment. A URL with fewer than six segments gives no data frame and no identifier:
  the \<open>IndexError\<close> of the indexing is caught and shown as a message (the empty URL is
  skipped without a message), so no exception leaves the branch.
\<close>

theorem sheet_id_is_sixth_segment:
  "snd (fst (google_sheets_input api ''https://docs.google.com/spreadsheets/d/SHEETID/edit''))
     = Some ''SHEETID''
   \<and> (6 \<le> length (split CHR ''/'' url)
        \<longrightarrow> snd (fst (google_sheets_input api url)) = Some (split CHR ''/'' url ! 5))
   \<and> (length (split CHR ''/'' url) < 6
        \<longrightarrow> google_sheets_input api url =
              ((None, None),
               if url = [] then []
               else [St_error ''Error processing Google Sheets URL: list index out of range'']))"
proof (intro conjI impI)
  show "snd (fst (google_sheets_input api ''https://docs.google.com/spreadsheets/d/SHEETID/edit''))
     = Some ''SHEETID''"
    unfolding google_sheets_input_def split_example
    by (simp add: index_def split: prod.splits sum.splits)
next
  assume long: "6 \<le> length (split CHR ''/'' url)"
  then have "url \<noteq> []" by (cases url) auto
  with long show "snd (fst (google_sheets_input api url)) = Some (split CHR ''/'' url ! 5)"
    unfolding google_sheets_input_def
    by (simp add: index_def split: prod.splits sum.splits)
next
  assume "length (split CHR ''/'' url) < 6"
  then show "google_sheets_input api url =
              ((None, None),
               if url = [] then []
               else [St_error ''Error processing Google Sheets URL: list index out of range''])"
    unfolding google_sheets_input_def
    by (simp add: index_def)
qed

theorem sheet_id_witness:
  "length (split CHR ''/'' ''https://docs.google.com/SHEETID'') < 6
   \<and> google_sheets_input offline_api ''https://docs.google.com/SHEETID''
       = ((None, None), [St_error ''Error processing Google Sheets URL: list index out of range''])"
  using sheet_id_is_sixth_segment [of offline_api "''https://docs.google.com/SHEETID''"]
  unfolding split_short_example by simp

section \<open>The web search never raises\<close>

text \<open>
  C6. \<open>search_web\<close> always returns a list and no exception leaves it. On status 200 it
  returns the very list that the decoded body holds under "organic_results", and the
  empty list when the body has no such key or cannot be decoded; on any other status it
  returns the empty list after two messages, and the empty list after one message when
  the request raises.
\<close>

theorem search_web_returns_list:
  "(\<exists>items. fst (search_web requests_get key query) = Inr items)
   \<and> (requests_get ''https://serpapi.com/search'' \<lparr>q = query, api_key = key, num = 1\<rparr> = Inr r
        \<and> status_code r = 200 \<and> json r = Inr body \<and> body ''organic_results'' = Some items
        \<longrightarrow> search_web requests_get key query = (Inr items, []))
   \<and> (requests_get ''https://serpapi.com/search'' \<lparr>q = query, api_key = key, num = 1\<rparr> = Inr r
        \<and> status_code r = 200 \<and> json r = Inr body \<and> body ''organic_results'' = None
        \<longrightarrow> search_web requests_get key query = (Inr [], []))
   \<and> (requests_get ''https://serpapi.com/search'' \<lparr>q = query, api_key = key, num = 1\<rparr> = Inr r
        \<and> status_code r = 200 \<and> json r = Inl e
        \<longrightarrow> search_web requests_get key query
              = (Inr [], [St_error (''An exception occurred while querying SerpAPI: '' @ str_exn e)]))
   \<and> (requests_get ''https://serpapi.com/search'' \<lparr>q = query, api_key = key, num = 1\<rparr> = Inr r
        \<and> status_code r \<noteq> 200
        \<longrightarrow> search_web requests_get key query
              = (Inr [],
                 [St_error (''SerpAPI error: '' @ str_int (status_code r) @ '' - '' @ reason r),
                  St_error (''Response content: '' @ response_text r)]))
   \<and> (requests_get ''https://serpapi.com/search'' \<lparr>q = query, api_key = key, num = 1\<rparr> = Inl e
        \<longrightarrow> search_web requests_get key query
              = (Inr [], [St_error (''An exception occurred while querying SerpAPI: '' @ str_exn e)]))"
  unfolding search_web_def Let_def dict_get_def
  by (cases "requests_get ''https://serpapi.com/search'' \<lparr>q = query, api_key = key, num = 1\<rparr>")
     (simp_all split: sum.splits)

theorem search_web_witness:
  "search_web found_get (Some ''key'') ''email of A'' = (Inr [''first hit for email of A''], [])
   \<and> search_web refused_get (Some ''key'') ''email of A''
     = (Inr [], [St_error ''An exception occurred while querying SerpAPI: connection refused''])"
  using search_web_returns_list [where requests_get = found_get and key = "Some ''key''"
          and query = "''email of A''" and items = "[''first hit for email of A'']"
          and body = "[''organic_results'' \<mapsto> [''first hit for email of A'']]"
          and r = "\<lparr>status_code = 200, reason = ''OK'', response_text = ''{...}'',
                    json = Inr [''organic_results'' \<mapsto> [''first hit for email of A'']]\<rparr>"]
        search_web_returns_list [where requests_get = refused_get and key = "Some ''key''"
          and query = "''email of A''" and e = "Exception ''connection refused''"]
  by (simp add: found_get_def refused_get_def)

section \<open>Failure propagation of the spreadsheet helpers\<close>

text \<open>
  C8. \<open>read_google_sheet\<close> never raises: every failure inside it (building the service,
  the request, a sheet without a header row, the data-frame constructor) is shown as one
  message and the result is \<open>None\<close>. \<open>update_google_sheet\<close> shows its message and then
  raises the same exception again, whether building the service or the update request
  failed.
\<close>

theorem read_swallows_update_reraises:
  "(\<exists>df. fst (read_google_sheet api spreadsheet_id range_name) = Inr df)
   \<and> (get_google_sheets_service api = Inl e
        \<longrightarrow> read_google_sheet api spreadsheet_id range_name
              = (Inr None, [St_error (''Error reading Google Sheet: '' @ str_exn e)])
          \<and> update_google_sheet api spreadsheet_id range_name data
              = (Inl e, [St_error (''Error updating Google Sheet: '' @ str_exn e)]))
   \<and> (get_google_sheets_service api = Inr service
        \<and> values_get api service spreadsheet_id range_name = Inl e
        \<longrightarrow> read_google_sheet api spreadsheet_id range_name
              = (Inr None, [St_error (''Error reading Google Sheet: '' @ str_exn e)]))
   \<and> (get_google_sheets_service api = Inr service
        \<and> values_get api service spreadsheet_id range_name = Inr sheet_data
        \<and> dict_get sheet_data ''values'' = []
        \<longrightarrow> read_google_sheet api spreadsheet_id range_name
              = (Inr None, [St_error ''Error reading Google Sheet: list index out of range'']))
   \<and> (get_google_sheets_service api = Inr service
        \<and> values_get api service spreadsheet_id range_name = Inr sheet_data
        \<and> dict_get sheet_data ''values'' = columns # rows
        \<and> DataFrame api rows columns = Inl e
        \<longrightarrow> read_google_sheet api spreadsheet_id range_name
              = (Inr None, [St_error (''Error reading Google Sheet: '' @ str_exn e)]))
   \<and> (get_google_sheets_service api = Inr service
        \<and> values_get api service spreadsheet_id range_name = Inr sheet_data
        \<and> dict_get sheet_data ''values'' = columns # rows
        \<and> DataFrame api rows columns = Inr df
        \<longrightarrow> read_google_sheet api spreadsheet_id range_name = (Inr (Some df), []))
   \<and> (get_google_sheets_service api = Inr service
        \<and> values_update api service spreadsheet_id range_name ''RAW'' data = Inl e
        \<longrightarrow> update_google_sheet api spreadsheet_id range_name data
              = (Inl e, [Values_update spreadsheet_id range_name ''RAW'' data,
                         St_error (''Error updating Google Sheet: '' @ str_exn e)]))
   \<and> (get_google_sheets_service api = Inr service
        \<and> values_update api service spreadsheet_id range_name ''RAW'' data = Inr result
        \<longrightarrow> update_google_sheet api spreadsheet_id range_name data
              = (Inr result, [Values_update spreadsheet_id range_name ''RAW'' data]))
   \<and> (fst (read_google_sheet api spreadsheet_id range_name) = Inr None
        \<longrightarrow> (\<exists>msg. snd (read_google_sheet api spreadsheet_id range_name) = [St_error msg]))
   \<and> (fst (update_google_sheet api spreadsheet_id range_name data) = Inl e
        \<longrightarrow> St_error (''Error updating Google Sheet: '' @ str_exn e)
              \<in> set (snd (update_google_sheet api spreadsheet_id range_name data)))"
  unfolding read_google_sheet_def update_google_sheet_def and_then_def index_def
  by (cases "get_google_sheets_service api") (auto split: sum.splits)

theorem read_update_witness:
  "read_google_sheet offline_api ''SHEETID'' ''Sheet1''
     = (Inr None, [St_error ''Error reading Google Sheet: credentials file not found''])
   \<and> update_google_sheet offline_api ''SHEETID'' ''Sheet1'' []
     = (Inl (Exception ''credentials file not found''),
        [St_error ''Error updating Google Sheet: credentials file not found''])"
proof -
  have "get_google_sheets_service offline_api = Inl (Exception ''credentials file not found'')"
    by (simp add: get_google_sheets_service_def offline_api_def and_then_def)
  then show ?thesis
    using read_swallows_update_reraises
      [where api = offline_api and spreadsheet_id = "''SHEETID''" and range_name = "''Sheet1''"
         and e = "Exception ''credentials file not found''" and data = "[]"]
    by simp
qed

section \<open>Distinct values in order of first occurrence\<close>

lemma set_unique_from: "set (unique_from seen xs) = set xs - set seen"
  by (induction xs arbitrary: seen) auto

lemma distinct_unique_from: "distinct (unique_from seen xs)"
  by (induction xs arbitrary: seen) (auto simp: set_unique_from)

lemma set_unique: "set (unique xs) = set xs"
  by (simp add: unique_def set_unique_from)

lemma distinct_unique: "distinct (unique xs)"
  by (simp add: unique_def distinct_unique_from)

lemma length_unique: "length (unique xs) = card (set xs)"
  using distinct_card [OF distinct_unique, of xs] by (simp add: set_unique)

lemma map_filter_cong:
  "(\<And>x. x \<in> set l \<Longrightarrow> P x = Q x) \<Longrightarrow> map f (filter P l) = map f (filter Q l)"
  by (induction l) auto

lemma unique_from_positions:
  "unique_from seen xs =
     map (\<lambda>i. xs ! i) (filter (\<lambda>i. xs ! i \<notin> set seen \<union> set (take i xs)) [0..<length xs])"
proof (induction xs arbitrary: seen)
  case Nil
  show ?case by simp
next
  case (Cons x xs)
  have upt: "[0..<length (x # xs)] = 0 # map Suc [0..<length xs]"
    by (simp add: upt_conv_Cons map_Suc_upt del: upt_Suc)
  show ?case
  proof (cases "x \<in> set seen")
    case True
    then show ?thesis
      unfolding upt
      by (simp add: Cons.IH filter_map comp_def) (rule map_filter_cong, auto)
  next
    case False
    then show ?thesis
      unfolding upt
      by (simp add: Cons.IH filter_map comp_def) (rule map_filter_cong, auto)
  qed
qed

lemma unique_first_occurrences: "unique xs = first_occurrences xs"
  by (simp add: unique_def first_occurrences_def unique_from_positions)

section \<open>The extraction loop\<close>

lemma st_fields [simp]:
  "world (st ev s) = world s"
  "extracted_data (st ev s) = extracted_data s"
  "shown (st ev s) = shown s @ [ev]"
  by (simp_all add: st_def)

lemma append_record_fields [simp]:
  "world (append_record entity d s) = world s"
  "extracted_data (append_record entity d s)
     = extracted_data s @ [\<lparr>Entity = entity, Extracted_Data = d\<rparr>]"
  "shown (append_record entity d s) = shown s"
  by (simp_all add: append_record_def)

lemma format_prompt_str [simp]:
  "format_prompt t (CStr e) = Inr (replace ''{entity}'' e t)"
  by (simp add: format_prompt_def)

lemma format_prompt_not_str [simp]:
  "\<not> is_str c \<Longrightarrow> format_prompt t c = Inl TypeError"
  by (cases c) (simp_all add: format_prompt_def)

text \<open>
  The loop stops with \<open>TypeError\<close> at the first entity that is not a string; up to there
  it appends one record per entity, built from the outcome of the agent's run.
\<close>

lemma extraction_loop_result:
  "fst (extraction_loop agent t n (enumerate k es) s)
     = (if list_all is_str es then None else Some TypeError)
   \<and> extracted_data (snd (extraction_loop agent t n (enumerate k es) s))
     = extracted_data s
       @ map2 record_of (takeWhile is_str es)
           (agent_outcomes agent (prompts t (takeWhile is_str es)) (world s))"
proof (induction es arbitrary: k s)
  case Nil
  show ?case by (simp add: prompts_def)
next
  case (Cons c es)
  show ?case
  proof (cases c)
    case (CStr e)
    obtain r w where ag: "agent (replace ''{entity}'' e t) (world s) = (r, w)"
      by (cases "agent (replace ''{entity}'' e t) (world s)")
    show ?thesis
      using ag Cons.IH
      by (cases r) (simp_all add: CStr Let_def prompts_def record_of_def)
  qed (simp_all add: prompts_def)
qed

lemma length_agent_outcomes [simp]: "length (agent_outcomes agent ps w) = length ps"
  by (induction ps arbitrary: w) (auto split: prod.splits)

lemma map_Entity_record_of:
  "length outs = length es \<Longrightarrow> map Entity (map2 record_of es outs) = es"
  by (induction es outs rule: list_induct2') (simp_all add: record_of_def)

lemma sync_google_sheet_fields [simp]:
  "extracted_data (sync_google_sheet api i s) = extracted_data s"
  "world (sync_google_sheet api i s) = world s"
  by (simp_all add: sync_google_sheet_def Let_def st_def split: prod.splits sum.splits)

lemma run_clicked_result:
  "fst (run_data_extraction api agent ds sid column t (Some Run_Data_Extraction) w)
     = fst (extraction_loop agent t (length (unique column)) (enumerate 0 (unique column))
              \<lparr>world = w, extracted_data = [], shown = [St_progress 0 1]\<rparr>)
   \<and> extracted_data (snd (run_data_extraction api agent ds sid column t (Some Run_Data_Extraction) w))
     = extracted_data (snd (extraction_loop agent t (length (unique column)) (enumerate 0 (unique column))
              \<lparr>world = w, extracted_data = [], shown = [St_progress 0 1]\<rparr>))"
  unfolding run_data_extraction_def Let_def st_button_def
  by (cases "extraction_loop agent t (length (unique column)) (enumerate 0 (unique column))
              \<lparr>world = w, extracted_data = [], shown = [St_progress 0 1]\<rparr>")
     (auto split: option.splits)

lemma run_clicked_records:
  "fst (run_data_extraction api agent ds sid column t (Some Run_Data_Extraction) w)
     = (if list_all is_str column then None else Some TypeError)
   \<and> extracted_data (snd (run_data_extraction api agent ds sid column t (Some Run_Data_Extraction) w))
     = map2 record_of (takeWhile is_str (unique column))
         (agent_outcomes agent (prompts t (takeWhile is_str (unique column))) w)"
proof -
  have "list_all is_str (unique column) = list_all is_str column"
    by (simp add: list_all_iff set_unique)
  then show ?thesis
    using extraction_loop_result [of agent t "length (unique column)" 0 "unique column"
            "\<lparr>world = w, extracted_data = [], shown = [St_progress 0 1]\<rparr>"]
    by (simp add: run_clicked_result)
qed

lemma takeWhile_all: "list_all P xs \<Longrightarrow> takeWhile P xs = xs"
  by (induction xs) auto

lemma takeWhile_shorter: "\<not> list_all P xs \<Longrightarrow> length (takeWhile P xs) < length xs"
  by (induction xs) auto

section \<open>One record per distinct value\<close>

text \<open>
  On a column that holds only strings the batch ends without an exception and has
  exactly one record per distinct value of the column, in the order in which the values
  first occur.
\<close>

lemma string_column_one_record_each:
  assumes "list_all is_str column"
  shows "fst (run_data_extraction api agent ds sid column t (Some Run_Data_Extraction) w) = None
       \<and> map Entity (extracted_data (snd (run_data_extraction api agent ds sid column t (Some Run_Data_Extraction) w)))
           = first_occurrences column
       \<and> length (extracted_data (snd (run_data_extraction api agent ds sid column t (Some Run_Data_Extraction) w)))
           = card (set column)"
proof -
  have all: "list_all is_str (unique column)"
    using assms by (simp add: list_all_iff set_unique)
  have recs: "extracted_data (snd (run_data_extraction api agent ds sid column t (Some Run_Data_Extraction) w))
     = map2 record_of (unique column) (agent_outcomes agent (prompts t (unique column)) w)"
    using run_clicked_records [of api agent ds sid column t w] by (simp add: takeWhile_all [OF all])
  have ents: "map Entity (extracted_data (snd (run_data_extraction api agent ds sid column t (Some Run_Data_Extraction) w)))
           = unique column"
    unfolding recs by (rule map_Entity_record_of) (simp add: prompts_def)
  have "length (map Entity (extracted_data (snd (run_data_extraction api agent ds sid column t (Some Run_Data_Extraction) w))))
           = card (set column)"
    unfolding ents by (rule length_unique)
  then show ?thesis
    using assms ents run_clicked_records [of api agent ds sid column t w]
    by (simp add: unique_first_occurrences)
qed

text \<open>
  C1. The driver is to produce one record per distinct value for every input table. For
  the numeric column with the single value 7 it does not: the substitution of line 190
  raises \<open>TypeError\<close> outside the \<open>try\<close> block, the batch ends with that exception and
  has no record, while the column has one distinct value.
\<close>

theorem numeric_column_aborts_batch:
  "fst (run_data_extraction offline_api echo_agent Upload_CSV None [CInt 7] ''find {entity}''
          (Some Run_Data_Extraction) ())
     = Some TypeError
   \<and> extracted_data (snd (run_data_extraction offline_api echo_agent Upload_CSV None
         [CInt 7] ''find {entity}'' (Some Run_Data_Extraction) ())) = []
   \<and> card (set [CInt 7]) = 1"
  by (simp add: run_data_extraction_def st_button_def unique_def format_prompt_def)

section \<open>An entity that is not a string ends the batch\<close>

text \<open>
  C10. The substitution is outside the \<open>try\<close> block of the loop: for an entity that is
  not a string it raises \<open>TypeError\<close>, the loop ends there with that exception and
  without a record for the entity. So a column with such a value ends the batch with
  \<open>TypeError\<close>; the records are those of the string entities before it, fewer than
  the distinct values.
\<close>

theorem non_string_entity_aborts_batch:
  "(\<not> is_str entity \<longrightarrow>
      format_prompt t entity = Inl TypeError
      \<and> extraction_loop agent t n ((idx, entity) # rest) s = (Some TypeError, s))
   \<and> (\<not> list_all is_str column \<longrightarrow>
      fst (run_data_extraction api agent ds sid column t (Some Run_Data_Extraction) w) = Some TypeError
      \<and> map Entity (extracted_data (snd (run_data_extraction api agent ds sid column t (Some Run_Data_Extraction) w)))
          = takeWhile is_str (unique column)
      \<and> length (extracted_data (snd (run_data_extraction api agent ds sid column t (Some Run_Data_Extraction) w)))
          < length (unique column))"
proof (intro conjI impI)
  assume "\<not> is_str entity"
  then show "format_prompt t entity = Inl TypeError" by simp
  from \<open>\<not> is_str entity\<close>
  show "extraction_loop agent t n ((idx, entity) # rest) s = (Some TypeError, s)" by simp
next
  assume bad: "\<not> list_all is_str column"
  then show "fst (run_data_extraction api agent ds sid column t (Some Run_Data_Extraction) w) = Some TypeError"
    using run_clicked_records [of api agent ds sid column t w] by simp
  have recs: "extracted_data (snd (run_data_extraction api agent ds sid column t (Some Run_Data_Extraction) w))
     = map2 record_of (takeWhile is_str (unique column))
         (agent_outcomes agent (prompts t (takeWhile is_str (unique column))) w)"
    using run_clicked_records [of api agent ds sid column t w] by simp
  have ents: "map Entity (extracted_data (snd (run_data_extraction api agent ds sid column t (Some Run_Data_Extraction) w)))
          = takeWhile is_str (unique column)"
    unfolding recs by (rule map_Entity_record_of) (simp add: prompts_def)
  then show "map Entity (extracted_data (snd (run_data_extraction api agent ds sid column t (Some Run_Data_Extraction) w)))
          = takeWhile is_str (unique column)" .
  from bad have "\<not> list_all is_str (unique column)"
    by (simp add: list_all_iff set_unique)
  then have "length (takeWhile is_str (unique column)) < length (unique column)"
    by (rule takeWhile_shorter)
  then show "length (extracted_data (snd (run_data_extraction api agent ds sid column t (Some Run_Data_Extraction) w)))
          < length (unique column)"
    using arg_cong [OF ents, of length] by simp
qed

theorem non_string_entity_aborts_batch_witness:
  "\<not> is_str CNaN \<and> \<not> list_all is_str [CStr ''B'', CNaN, CStr ''A'']
   \<and> fst (run_data_extraction offline_api echo_agent Upload_CSV None
         [CStr ''B'', CNaN, CStr ''A''] ''find {entity}'' (Some Run_Data_Extraction) ()) = Some TypeError
   \<and> map Entity (extracted_data (snd (run_data_extraction offline_api echo_agent Upload_CSV None
         [CStr ''B'', CNaN, CStr ''A''] ''find {entity}'' (Some Run_Data_Extraction) ()))) = [CStr ''B'']"
proof -
  have u: "unique [CStr ''B'', CNaN, CStr ''A''] = [CStr ''B'', CNaN, CStr ''A'']"
    by (simp add: unique_def)
  show ?thesis
    using non_string_entity_aborts_batch [where entity = CNaN
        and column = "[CStr ''B'', CNaN, CStr ''A'']" and api = offline_api and agent = echo_agent
        and ds = Upload_CSV and sid = None and t = "''find {entity}''" and w = "()"]
    by (simp add: u)
qed

section \<open>A failing agent run does not end the batch\<close>

lemma run_records:
  "extracted_data (snd (run_data_extraction api agent ds sid column t (Some Run_Data_Extraction) w))
     = map2 record_of (takeWhile is_str (unique column))
         (agent_outcomes agent (prompts t (takeWhile is_str (unique column))) w)"
  using run_clicked_records [of api agent ds sid column t w] by simp

lemma run_entities:
  "map Entity (extracted_data (snd (run_data_extraction api agent ds sid column t (Some Run_Data_Extraction) w)))
     = takeWhile is_str (unique column)"
  unfolding run_records by (rule map_Entity_record_of) (simp add: prompts_def)

lemma run_exception:
  "fst (run_data_extraction api agent ds sid column t (Some Run_Data_Extraction) w)
     = (if list_all is_str column then None else Some TypeError)"
  using run_clicked_records [of api agent ds sid column t w] by simp

text \<open>
  C2. When the agent's run for an entity raises, the loop records the marker "Error
  during extraction" for that entity and goes on with the remaining entities. In the
  batch, the record at every position holds the entity of that position and either the
  agent's answer or, where the run raised, the marker. Which entities have a record, and
  whether the batch ends with an exception, is the same for every agent, so no failure of
  a run removes another entity from the output; on a column of strings every distinct
  value has its record.
\<close>

theorem agent_failure_is_isolated:
  "(agent (replace ''{entity}'' e t) (world s) = (Inl x, w1) \<longrightarrow>
      extraction_loop agent t n ((idx, CStr e) # rest) s
        = extraction_loop agent t n rest
            (st (St_progress (idx + 1) n)
               (append_record (CStr e) ''Error during extraction''
                  (st (St_error (''Error processing '' @ e @ '': '' @ str_exn x))
                     ((st (St_write (''Running extraction for: '' @ e)) s)\<lparr>world := w1\<rparr>)))))
   \<and> length (extracted_data (snd (run_data_extraction api agent ds sid column t (Some Run_Data_Extraction) w)))
       = length (takeWhile is_str (unique column))
   \<and> (\<forall>i < length (takeWhile is_str (unique column)).
         Entity (extracted_data (snd (run_data_extraction api agent ds sid column t (Some Run_Data_Extraction) w)) ! i)
           = takeWhile is_str (unique column) ! i
       \<and> Extracted_Data (extracted_data (snd (run_data_extraction api agent ds sid column t (Some Run_Data_Extraction) w)) ! i)
           = (case agent_outcomes agent (prompts t (takeWhile is_str (unique column))) w ! i of
                Inl e \<Rightarrow> ''Error during extraction''
              | Inr answer \<Rightarrow> answer))
   \<and> fst (run_data_extraction api agent ds sid column t (Some Run_Data_Extraction) w)
       = fst (run_data_extraction api agent' ds sid column t (Some Run_Data_Extraction) w')
   \<and> map Entity (extracted_data (snd (run_data_extraction api agent ds sid column t (Some Run_Data_Extraction) w)))
       = map Entity (extracted_data (snd (run_data_extraction api agent' ds sid column t (Some Run_Data_Extraction) w')))
   \<and> (list_all is_str column \<longrightarrow>
         fst (run_data_extraction api agent ds sid column t (Some Run_Data_Extraction) w) = None
       \<and> map Entity (extracted_data (snd (run_data_extraction api agent ds sid column t (Some Run_Data_Extraction) w)))
           = unique column)"
proof (intro conjI impI allI)
  assume "agent (replace ''{entity}'' e t) (world s) = (Inl x, w1)"
  then show "extraction_loop agent t n ((idx, CStr e) # rest) s
        = extraction_loop agent t n rest
            (st (St_progress (idx + 1) n)
               (append_record (CStr e) ''Error during extraction''
                  (st (St_error (''Error processing '' @ e @ '': '' @ str_exn x))
                     ((st (St_write (''Running extraction for: '' @ e)) s)\<lparr>world := w1\<rparr>))))"
    by (simp add: Let_def)
next
  show "length (extracted_data (snd (run_data_extraction api agent ds sid column t (Some Run_Data_Extraction) w)))
       = length (takeWhile is_str (unique column))"
    using arg_cong [OF run_entities [of api agent ds sid column t w], of length] by simp
next
  fix i assume "i < length (takeWhile is_str (unique column))"
  then show "Entity (extracted_data (snd (run_data_extraction api agent ds sid column t (Some Run_Data_Extraction) w)) ! i)
           = takeWhile is_str (unique column) ! i"
    unfolding run_records by (simp add: prompts_def record_of_def)
next
  fix i assume "i < length (takeWhile is_str (unique column))"
  then show "Extracted_Data (extracted_data (snd (run_data_extraction api agent ds sid column t (Some Run_Data_Extraction) w)) ! i)
           = (case agent_outcomes agent (prompts t (takeWhile is_str (unique column))) w ! i of
                Inl e \<Rightarrow> ''Error during extraction''
              | Inr answer \<Rightarrow> answer)"
    unfolding run_records by (simp add: prompts_def record_of_def)
next
  show "fst (run_data_extraction api agent ds sid column t (Some Run_Data_Extraction) w)
       = fst (run_data_extraction api agent' ds sid column t (Some Run_Data_Extraction) w')"
    by (simp add: run_exception)
next
  show "map Entity (extracted_data (snd (run_data_extraction api agent ds sid column t (Some Run_Data_Extraction) w)))
       = map Entity (extracted_data (snd (run_data_extraction api agent' ds sid column t (Some Run_Data_Extraction) w')))"
    by (simp add: run_entities)
next
  assume "list_all is_str column"
  then show "fst (run_data_extraction api agent ds sid column t (Some Run_Data_Extraction) w) = None"
    by (simp add: run_exception)
next
  assume "list_all is_str column"
  then have "list_all is_str (unique column)"
    by (simp add: list_all_iff set_unique)
  then show "map Entity (extracted_data (snd (run_data_extraction api agent ds sid column t (Some Run_Data_Extraction) w)))
           = unique column"
    by (simp add: run_entities takeWhile_all)
qed

section \<open>Prompt instantiation\<close>

lemma replace_absent:
  "old \<noteq> [] \<Longrightarrow> \<not> sublist old s \<Longrightarrow> replace old new s = s"
proof (induction s)
  case Nil
  then show ?case by (simp add: replace.simps)
next
  case (Cons c cs)
  from Cons.prems have "\<not> prefix old (c # cs)" and "\<not> sublist old cs"
    by (auto simp: sublist_Cons_right)
  with Cons show ?case
    by (subst replace.simps) simp
qed

lemma butlast_prefix_ext:
  assumes "old \<noteq> []"
  shows "prefix (a @ butlast old) (a @ old @ b)"
proof -
  have "a @ old @ b = (a @ butlast old) @ (last old # b)"
    using append_butlast_last_id [OF assms] by (metis append.assoc append_Cons append_Nil)
  then show ?thesis by (metis prefixI)
qed

lemma replace_at_first_occurrence:
  "old \<noteq> [] \<Longrightarrow> \<not> sublist old (a @ butlast old) \<Longrightarrow>
     replace old new (a @ old @ b) = a @ new @ replace old new b"
proof (induction a)
  case Nil
  then show ?case by (subst replace.simps) simp
next
  case (Cons c a)
  from Cons.prems have np: "\<not> prefix old (c # a @ butlast old)"
    and ns: "\<not> sublist old (a @ butlast old)"
    by (auto simp: sublist_Cons_right)
  have "\<not> prefix old (c # a @ old @ b)"
  proof
    assume p: "prefix old (c # a @ old @ b)"
    have q: "prefix (c # a @ butlast old) (c # a @ old @ b)"
      using butlast_prefix_ext [OF Cons.prems(1), of "c # a" b] by simp
    have "length old \<le> length (c # a @ butlast old)"
      using Cons.prems(1) by (cases old) auto
    from prefix_length_prefix [OF p q this] np show False by simp
  qed
  with Cons.prems(1) Cons.IH [OF Cons.prems(1) ns] show ?case
    by (subst replace.simps) simp
qed

lemma first_occurrence_exists:
  "old \<noteq> [] \<Longrightarrow> sublist old s \<Longrightarrow>
     \<exists>a b. s = a @ old @ b \<and> \<not> sublist old (a @ butlast old)"
proof (induction s)
  case Nil
  then show ?case by simp
next
  case (Cons c cs)
  show ?case
  proof (cases "prefix old (c # cs)")
    case True
    then obtain b where "c # cs = old @ b" by (auto simp: prefix_def)
    moreover have "\<not> sublist old (butlast old)"
      using Cons.prems(1) sublist_length_le [of old "butlast old"] by (cases old) auto
    ultimately show ?thesis by (intro exI [of _ "[]"] exI [of _ b]) simp
  next
    case False
    with Cons.prems have "sublist old cs" by (simp add: sublist_Cons_right)
    from Cons.IH [OF Cons.prems(1) this]
    obtain a b where s: "cs = a @ old @ b" and n: "\<not> sublist old (a @ butlast old)" by blast
    have "\<not> prefix old (c # a @ butlast old)"
    proof
      assume p: "prefix old (c # a @ butlast old)"
      have "prefix (c # a @ butlast old) (c # a @ old @ b)"
        using butlast_prefix_ext [OF Cons.prems(1), of "c # a" b] by simp
      with p have "prefix old (c # a @ old @ b)" by (rule prefix_order.order_trans)
      with False s show False by simp
    qed
    with n have "\<not> sublist old ((c # a) @ butlast old)" by (simp add: sublist_Cons_right)
    with s show ?thesis by (intro exI [of _ "c # a"] exI [of _ b]) simp
  qed
qed

lemma literal_replacement_unique:
  assumes old: "old \<noteq> []"
    and absent: "\<And>s. \<not> sublist old s \<Longrightarrow> f s = s"
    and first: "\<And>a b. \<not> sublist old (a @ butlast old) \<Longrightarrow> f (a @ old @ b) = a @ new @ f b"
  shows "f s = replace old new s"
proof (induction s rule: length_induct)
  case (1 s)
  show ?case
  proof (cases "sublist old s")
    case False
    then show ?thesis by (simp add: absent replace_absent [OF old])
  next
    case True
    from first_occurrence_exists [OF old True]
    obtain a b where s: "s = a @ old @ b" and n: "\<not> sublist old (a @ butlast old)" by blast
    have "length b < length s" using old s by (cases old) auto
    with 1 have "f b = replace old new b" by blast
    then show ?thesis
      by (simp add: s first [OF n] replace_at_first_occurrence [OF old n])
  qed
qed

text \<open>
  C7. For an entity that is a string, the prompt is the template with every occurrence
  of the token "{entity}" replaced by the entity, from the left: a template without the
  token is passed through unchanged and nothing is raised; a template whose first
  occurrence of the token follows the text \<open>a\<close> gives \<open>a\<close>, the entity and the prompt of
  the rest. These two rules fix the prompt of every template: any function that obeys them
  gives the prompt.
\<close>

theorem prompt_is_literal_replacement:
  "(\<not> sublist ''{entity}'' t \<longrightarrow> format_prompt t (CStr e) = Inr t)
   \<and> (\<not> sublist ''{entity}'' (a @ ''{entity'') \<longrightarrow>
        (\<exists>b'. format_prompt b (CStr e) = Inr b'
              \<and> format_prompt (a @ ''{entity}'' @ b) (CStr e) = Inr (a @ e @ b')))
   \<and> ((\<forall>s. \<not> sublist ''{entity}'' s \<longrightarrow> f s = s)
        \<and> (\<forall>a b. \<not> sublist ''{entity}'' (a @ ''{entity'') \<longrightarrow> f (a @ ''{entity}'' @ b) = a @ e @ f b)
       \<longrightarrow> format_prompt t (CStr e) = Inr (f t))"
proof (intro conjI impI)
  assume "\<not> sublist ''{entity}'' t"
  then show "format_prompt t (CStr e) = Inr t"
    using replace_absent [of "''{entity}''" t e] by simp
next
  assume "\<not> sublist ''{entity}'' (a @ ''{entity'')"
  then have "replace ''{entity}'' e (a @ ''{entity}'' @ b) = a @ e @ replace ''{entity}'' e b"
    using replace_at_first_occurrence [of "''{entity}''" a e b] by simp
  then show "\<exists>b'. format_prompt b (CStr e) = Inr b'
              \<and> format_prompt (a @ ''{entity}'' @ b) (CStr e) = Inr (a @ e @ b')"
    by simp
next
  assume f: "(\<forall>s. \<not> sublist ''{entity}'' s \<longrightarrow> f s = s)
        \<and> (\<forall>a b. \<not> sublist ''{entity}'' (a @ ''{entity'') \<longrightarrow> f (a @ ''{entity}'' @ b) = a @ e @ f b)"
  have "f t = replace ''{entity}'' e t"
  proof (rule literal_replacement_unique)
    show "''{entity}'' \<noteq> []" by simp
  next
    fix s assume "\<not> sublist ''{entity}'' s"
    with f show "f s = s" by blast
  next
    fix a b assume "\<not> sublist ''{entity}'' (a @ butlast ''{entity}'')"
    then have "\<not> sublist ''{entity}'' (a @ ''{entity'')" by simp
    with f show "f (a @ ''{entity}'' @ b) = a @ e @ f b" by blast
  qed
  then show "format_prompt t (CStr e) = Inr (f t)" by simp
qed

lemma no_placeholder_example: "\<not> sublist ''{entity}'' ''find it''"
  by (simp add: sublist_Cons_right)

lemma stray_brace_example: "\<not> sublist ''{entity}'' (''{x} '' @ ''{entity'')"
  by (simp add: sublist_Cons_right)

lemma second_occurrence_example: "\<not> sublist ''{entity}'' ('' and '' @ ''{entity'')"
  by (simp add: sublist_Cons_right)

theorem prompt_is_literal_replacement_witness:
  "\<not> sublist ''{entity}'' ''find it''
   \<and> format_prompt ''find it'' (CStr ''A'') = Inr ''find it''
   \<and> \<not> sublist ''{entity}'' (''{x} '' @ ''{entity'')
   \<and> format_prompt ''{x} {entity} and {entity}'' (CStr ''A'') = Inr ''{x} A and A''"
proof -
  have e: "format_prompt [] (CStr ''A'') = Inr []"
    using prompt_is_literal_replacement [of "[]" "''A''"] by simp
  have t: "format_prompt '' and {entity}'' (CStr ''A'') = Inr '' and A''"
    using prompt_is_literal_replacement [of _ "''A''" "'' and ''" "[]"] second_occurrence_example e
    by auto
  show ?thesis
    using prompt_is_literal_replacement [of "''find it''" "''A''" "''{x} ''" "'' and {entity}''"]
      no_placeholder_example stray_brace_example t
    by auto
qed

section \<open>Examples of a failing run\<close>

lemma unique_BA: "unique [CStr ''B'', CStr ''A'', CStr ''B''] = [CStr ''B'', CStr ''A'']"
  by (simp add: unique_def)

lemma replace_find_B: "replace ''{entity}'' ''B'' ''find {entity}'' = ''find B''"
  using replace_at_first_occurrence [of "''{entity}''" "''find ''" "''B''" "[]"]
  by (simp add: replace.simps [of _ _ "[]"] sublist_Cons_right)

lemma replace_find_A: "replace ''{entity}'' ''A'' ''find {entity}'' = ''find A''"
  using replace_at_first_occurrence [of "''{entity}''" "''find ''" "''A''" "[]"]
  by (simp add: replace.simps [of _ _ "[]"] sublist_Cons_right)

theorem agent_failure_is_isolated_witness:
  "agent_outcomes picky_agent (prompts ''find {entity}'' [CStr ''B'', CStr ''A'']) ()
       = [Inl (Exception ''timed out''), Inr ''found'']
   \<and> extracted_data (snd (run_data_extraction offline_api picky_agent Upload_CSV None
         [CStr ''B'', CStr ''A'', CStr ''B''] ''find {entity}'' (Some Run_Data_Extraction) ()))
       = [\<lparr>Entity = CStr ''B'', Extracted_Data = ''Error during extraction''\<rparr>,
          \<lparr>Entity = CStr ''A'', Extracted_Data = ''found''\<rparr>]
   \<and> fst (run_data_extraction offline_api picky_agent Upload_CSV None
         [CStr ''B'', CStr ''A'', CStr ''B''] ''find {entity}'' (Some Run_Data_Extraction) ()) = None"
proof -
  have h: "list_all is_str [CStr ''B'', CStr ''A'', CStr ''B'']" by simp
  have outs: "agent_outcomes picky_agent (prompts ''find {entity}'' [CStr ''B'', CStr ''A'']) ()
       = [Inl (Exception ''timed out''), Inr ''found'']"
    by (simp add: prompts_def replace_find_A replace_find_B picky_agent_def)
  have two: "\<And>P. (\<forall>i<Suc (Suc 0). P i) = (P 0 \<and> P (Suc 0))"
    by (auto simp: less_Suc_eq)
  have eq: "\<And>(r :: extraction_record list) a b.
      length r = Suc (Suc 0) \<Longrightarrow> r ! 0 = a \<Longrightarrow> r ! Suc 0 = b \<Longrightarrow> r = [a, b]"
    by (auto simp: length_Suc_conv)
  show ?thesis
    using h outs agent_failure_is_isolated [where api = offline_api and agent = picky_agent
        and ds = Upload_CSV and sid = None and column = "[CStr ''B'', CStr ''A'', CStr ''B'']"
        and t = "''find {entity}''" and w = "()" and agent' = echo_agent and w' = "()"]
    unfolding unique_BA
    by (auto simp: two intro!: eq extraction_record.equality)
qed

section \<open>The spreadsheet sync\<close>

lemma no_update_in_loop:
  "filter is_update (shown (snd (extraction_loop agent t n ies s))) = filter is_update (shown s)"
proof (induction ies arbitrary: s)
  case Nil
  show ?case by simp
next
  case (Cons ie ies)
  obtain idx c where ie: "ie = (idx, c)" by (cases ie)
  show ?case
  proof (cases c)
    case (CStr e)
    obtain r w where ag: "agent (replace ''{entity}'' e t) (world s) = (r, w)"
      by (cases "agent (replace ''{entity}'' e t) (world s)")
    show ?thesis
      using ag by (cases r) (simp_all add: ie CStr Let_def Cons.IH)
  qed (simp_all add: ie)
qed

lemma update_google_sheet_events:
  "filter is_update (snd (update_google_sheet api i r d))
     = (if isl (get_google_sheets_service api) then [] else [Values_update i r ''RAW'' d])"
  unfolding update_google_sheet_def
  by (cases "get_google_sheets_service api") (simp_all split: sum.splits)

text \<open>
  The body of the button "Update Google Sheet", where it runs, sends one request to the
  range "Sheet1!C1" with the header row and one row per record, if the service can be
  built.
\<close>

lemma sync_google_sheet_events:
  "filter is_update (shown (sync_google_sheet api i s))
     = filter is_update (shown s)
       @ (if isl (get_google_sheets_service api) then []
          else [Values_update i ''Sheet1!C1'' ''RAW''
                  ([CStr ''Entity'', CStr ''Extracted Data''] # values_tolist (extracted_data s))])"
proof -
  obtain res evs where up: "update_google_sheet api i ''Sheet1!C1''
      ([CStr ''Entity'', CStr ''Extracted Data''] # values_tolist (extracted_data s)) = (res, evs)"
    by (cases "update_google_sheet api i ''Sheet1!C1''
      ([CStr ''Entity'', CStr ''Extracted Data''] # values_tolist (extracted_data s))")
  have "filter is_update evs
     = (if isl (get_google_sheets_service api) then []
        else [Values_update i ''Sheet1!C1'' ''RAW''
                ([CStr ''Entity'', CStr ''Extracted Data''] # values_tolist (extracted_data s))])"
    using update_google_sheet_events [of api i "''Sheet1!C1''"
        "[CStr ''Entity'', CStr ''Extracted Data''] # values_tolist (extracted_data s)"]
    by (simp add: up)
  then show ?thesis
    by (cases res) (simp_all add: sync_google_sheet_def Let_def up)
qed

text \<open>
  C9. The sync is to write the header row and the records once the user confirms. It
  never does: the button "Update Google Sheet" is created inside the body of the button
  "Run Data Extraction", and the click on it starts a run of the script in which the
  outer button returns \<open>False\<close>. So no run of the script, whatever button caused it,
  sends an update request.
\<close>

theorem sync_is_never_reached:
  "filter is_update
     (shown (snd (run_data_extraction api agent ds sid column t clicked w))) = []"
proof (cases "clicked = Some Run_Data_Extraction")
  case False
  then show ?thesis by (simp add: run_data_extraction_def st_button_def)
next
  case True
  obtain x s where loop: "extraction_loop agent t (length (unique column)) (enumerate 0 (unique column))
              \<lparr>world = w, extracted_data = [], shown = [St_progress 0 1]\<rparr> = (x, s)"
    by (cases "extraction_loop agent t (length (unique column)) (enumerate 0 (unique column))
              \<lparr>world = w, extracted_data = [], shown = [St_progress 0 1]\<rparr>")
  have "filter is_update (shown (snd (x, s)))
          = filter is_update (shown \<lparr>world = w, extracted_data = [], shown = [St_progress 0 1]\<rparr>)"
    unfolding loop [symmetric] by (rule no_update_in_loop)
  then have none: "filter is_update (shown s) = []" by simp
  show ?thesis
    unfolding run_data_extraction_def Let_def loop st_button_def
    using True none by (cases x) simp_all
qed

theorem sync_is_never_reached_witness:
  "filter is_update
     (shown (snd (run_data_extraction online_api echo_agent Google_Sheets (Some ''SHEETID'')
                    [CStr ''A''] ''find {entity}'' (Some Run_Data_Extraction) ()))) = []
   \<and> filter is_update
     (shown (snd (run_data_extraction online_api echo_agent Google_Sheets (Some ''SHEETID'')
                    [CStr ''A''] ''find {entity}'' (Some Update_Google_Sheet) ()))) = []
   \<and> extracted_data (snd (run_data_extraction online_api echo_agent Google_Sheets (Some ''SHEETID'')
                    [CStr ''A''] ''find {entity}'' (Some Update_Google_Sheet) ())) = []"
  using sync_is_never_reached [of online_api echo_agent Google_Sheets "Some ''SHEETID''"
          "[CStr ''A'']" "''find {entity}''" "Some Run_Data_Extraction" "()"]
        sync_is_never_reached [of online_api echo_agent Google_Sheets "Some ''SHEETID''"
          "[CStr ''A'']" "''find {entity}''" "Some Update_Google_Sheet" "()"]
  by (simp add: run_data_extraction_def st_button_def)

section \<open>The rate limiter bounds every window of its own\<close>

lemma limiter_ok_later: "limiter_ok L now \<Longrightarrow> limiter_ok L (max now t)"
  by (auto simp: limiter_ok_def)

lemma admit_facts:
  assumes "limiter_ok L now" and "admit L now = (s, L')"
  shows "now \<le> s" and "last_reset L' \<le> s" and "s < last_reset L' + PERIOD"
    and "limiter_ok L' s" and "1 \<le> num_calls L'"
    and "(last_reset L' = last_reset L \<and> num_calls L' = num_calls L + 1)
         \<or> last_reset L + PERIOD \<le> last_reset L'"
  using assms
  by (auto simp: admit_def limiter_ok_def Let_def MAX_CALLS_def PERIOD_def split: if_splits)

lemma length_dispatch: "length (dispatch L now ts) = length ts"
  by (induction ts arbitrary: L now) (auto split: prod.splits)

lemma dispatch_not_early:
  "limiter_ok L now \<Longrightarrow> i < length ts \<Longrightarrow> ts ! i \<le> fst (dispatch L now ts ! i)"
proof (induction ts arbitrary: L now i)
  case Nil
  then show ?case by simp
next
  case (Cons t ts)
  obtain s L' where a: "admit L (max now t) = (s, L')" by (cases "admit L (max now t)")
  have ok: "limiter_ok L (max now t)" using Cons.prems(1) by (rule limiter_ok_later)
  show ?case
  proof (cases i)
    case 0
    then show ?thesis using admit_facts(1) [OF ok a] by (simp add: a)
  next
    case (Suc j)
    then show ?thesis
      using Cons.IH [OF admit_facts(4) [OF ok a], of j] Cons.prems(2) by (simp add: a)
  qed
qed

lemma dispatch_tags:
  "limiter_ok L now \<Longrightarrow> (s, r) \<in> set (dispatch L now ts) \<Longrightarrow>
     (r = last_reset L \<or> last_reset L + PERIOD \<le> r) \<and> r \<le> s \<and> s < r + PERIOD \<and> now \<le> s"
proof (induction ts arbitrary: L now)
  case Nil
  then show ?case by simp
next
  case (Cons t ts)
  obtain s0 L' where a: "admit L (max now t) = (s0, L')" by (cases "admit L (max now t)")
  have ok: "limiter_ok L (max now t)" using Cons.prems(1) by (rule limiter_ok_later)
  note f = admit_facts [OF ok a]
  from Cons.prems(2) have "(s, r) = (s0, last_reset L') \<or> (s, r) \<in> set (dispatch L' s0 ts)"
    by (simp add: a)
  then show ?case
  proof
    assume "(s, r) = (s0, last_reset L')"
    then show ?thesis using f by auto
  next
    assume "(s, r) \<in> set (dispatch L' s0 ts)"
    from Cons.IH [OF f(4) this] show ?thesis using f by auto
  qed
qed

lemma dispatch_window_count:
  "limiter_ok L now \<Longrightarrow>
     length (filter (\<lambda>(s, r'). r' = r) (dispatch L now ts))
       + (if r = last_reset L then num_calls L else 0) \<le> MAX_CALLS"
proof (induction ts arbitrary: L now)
  case Nil
  then show ?case by (simp add: limiter_ok_def)
next
  case (Cons t ts)
  obtain s0 L' where a: "admit L (max now t) = (s0, L')" by (cases "admit L (max now t)")
  have ok: "limiter_ok L (max now t)" using Cons.prems(1) by (rule limiter_ok_later)
  note f = admit_facts [OF ok a]
  note IH = Cons.IH [OF f(4)]
  have P: "0 < PERIOD" by (simp add: PERIOD_def)
  show ?case
  proof (cases "r = last_reset L'")
    case True
    with IH f(5,6) P show ?thesis by (auto simp: a)
  next
    case False
    show ?thesis
    proof (cases "r = last_reset L")
      case True
      with False f(6) have later: "last_reset L + PERIOD \<le> last_reset L'" by auto
      have "filter (\<lambda>(s, r'). r' = r) (dispatch L' s0 ts) = []"
      proof (rule filter_False, clarify)
        fix s assume "(s, r) \<in> set (dispatch L' s0 ts)"
        from dispatch_tags [OF f(4) this] later True P show False by auto
      qed
      with False True Cons.prems show ?thesis by (simp add: a limiter_ok_def)
    next
      case False
      with \<open>r \<noteq> last_reset L'\<close> IH show ?thesis by (simp add: a)
    qed
  qed
qed

lemma dispatch_spacing:
  "limiter_ok L now \<Longrightarrow> (s1, r1) \<in> set (dispatch L now ts) \<Longrightarrow>
     (s2, r2) \<in> set (dispatch L now ts) \<Longrightarrow> r1 < r2 \<Longrightarrow> r1 + PERIOD \<le> r2"
proof (induction ts arbitrary: L now)
  case Nil
  then show ?case by simp
next
  case (Cons t ts)
  obtain s0 L' where a: "admit L (max now t) = (s0, L')" by (cases "admit L (max now t)")
  have ok: "limiter_ok L (max now t)" using Cons.prems(1) by (rule limiter_ok_later)
  note f = admit_facts [OF ok a]
  from Cons.prems(2) have c1: "(s1, r1) = (s0, last_reset L') \<or> (s1, r1) \<in> set (dispatch L' s0 ts)"
    by (simp add: a)
  from Cons.prems(3) have c2: "(s2, r2) = (s0, last_reset L') \<or> (s2, r2) \<in> set (dispatch L' s0 ts)"
    by (simp add: a)
  show ?case
  proof (cases "(s1, r1) \<in> set (dispatch L' s0 ts)")
    case in1: True
    show ?thesis
    proof (cases "(s2, r2) \<in> set (dispatch L' s0 ts)")
      case True
      from Cons.IH [OF f(4) in1 True Cons.prems(4)] show ?thesis .
    next
      case False
      with c2 have "r2 = last_reset L'" by simp
      with dispatch_tags [OF f(4) in1] Cons.prems(4) show ?thesis by auto
    qed
  next
    case False
    with c1 have r1: "r1 = last_reset L'" by simp
    show ?thesis
    proof (cases "(s2, r2) \<in> set (dispatch L' s0 ts)")
      case True
      from dispatch_tags [OF f(4) True] r1 Cons.prems(4) show ?thesis by auto
    next
      case False
      with c2 r1 Cons.prems(4) show ?thesis by simp
    qed
  qed
qed

lemma dispatch_window_starts:
  assumes ok: "limiter_ok L now" and r: "(s0, r) \<in> set (dispatch L now ts)"
  shows "started_within r (map fst (dispatch L now ts)) \<le> MAX_CALLS"
proof -
  have "filter (\<lambda>(s, r'). r \<le> s \<and> s < r + PERIOD) (dispatch L now ts)
          = filter (\<lambda>(s, r'). r' = r) (dispatch L now ts)"
  proof (rule filter_cong [OF refl], clarify)
    fix s r' assume m: "(s, r') \<in> set (dispatch L now ts)"
    note t = dispatch_tags [OF ok m]
    show "(r \<le> s \<and> s < r + PERIOD) = (r' = r)"
    proof (cases "r' = r")
      case True
      with t show ?thesis by simp
    next
      case False
      then consider "r' < r" | "r < r'" by linarith
      then show ?thesis
      proof cases
        case 1
        from dispatch_spacing [OF ok m r 1] t False show ?thesis by auto
      next
        case 2
        from dispatch_spacing [OF ok r m 2] t False show ?thesis by auto
      qed
    qed
  qed
  then have "started_within r (map fst (dispatch L now ts))
          = length (filter (\<lambda>(s, r'). r' = r) (dispatch L now ts))"
    by (simp add: started_within_def filter_map comp_def case_prod_unfold)
  with dispatch_window_count [OF ok, of r ts] show ?thesis by simp
qed

lemma new_limiter_ok: "limiter_ok (new_limiter t0) t0"
  by (simp add: limiter_ok_def new_limiter_def)

text \<open>
  C3, as amended. No call is dropped: every call asked for starts, and not before it was
  asked for. Every call starts within the 60 seconds of the window in which it is
  counted, and at most 15 calls start within the 60 seconds of any such window, which
  begins when the counter is reset. A call that finds the quota of the running window
  used up starts only when that window has ended.
\<close>

theorem limiter_bounds_each_window:
  "length (dispatch (new_limiter t0) t0 ts) = length ts
   \<and> (\<forall>i < length ts. ts ! i \<le> fst (dispatch (new_limiter t0) t0 ts ! i))
   \<and> (\<forall>(s, r) \<in> set (dispatch (new_limiter t0) t0 ts).
         r \<le> s \<and> s < r + PERIOD
         \<and> started_within r (map fst (dispatch (new_limiter t0) t0 ts)) \<le> MAX_CALLS)
   \<and> (num_calls L = MAX_CALLS \<and> last_reset L \<le> now \<and> now < last_reset L + PERIOD
        \<longrightarrow> fst (admit L now) = last_reset L + PERIOD)"
proof (intro conjI allI impI ballI)
  show "length (dispatch (new_limiter t0) t0 ts) = length ts" by (rule length_dispatch)
next
  fix i assume "i < length ts"
  then show "ts ! i \<le> fst (dispatch (new_limiter t0) t0 ts ! i)"
    by (rule dispatch_not_early [OF new_limiter_ok])
next
  fix x assume x: "x \<in> set (dispatch (new_limiter t0) t0 ts)"
  obtain s r where sr: "x = (s, r)" by (cases x)
  from dispatch_tags [OF new_limiter_ok x [unfolded sr]]
    dispatch_window_starts [OF new_limiter_ok x [unfolded sr]]
  show "case x of (s, r) \<Rightarrow> r \<le> s \<and> s < r + PERIOD
         \<and> started_within r (map fst (dispatch (new_limiter t0) t0 ts)) \<le> MAX_CALLS"
    by (simp add: sr)
next
  assume "num_calls L = MAX_CALLS \<and> last_reset L \<le> now \<and> now < last_reset L + PERIOD"
  then show "fst (admit L now) = last_reset L + PERIOD"
    by (auto simp: admit_def Let_def PERIOD_def)
qed

lemma sixteen_dispatch:
  "dispatch (new_limiter 0) 0 (replicate 16 0) = replicate 15 (0, 0) @ [(60, 60)]"
  by code_simp

theorem limiter_bounds_each_window_witness:
  "(60, 60) \<in> set (dispatch (new_limiter 0) 0 (replicate 16 0))
   \<and> fst (dispatch (new_limiter 0) 0 (replicate 16 0) ! 15) = 60
   \<and> started_within 0 (map fst (dispatch (new_limiter 0) 0 (replicate 16 0))) \<le> MAX_CALLS
   \<and> fst (admit \<lparr>last_reset = 0, num_calls = 15\<rparr> 0) = 60"
proof -
  have m: "(60, 60) \<in> set (dispatch (new_limiter 0) 0 (replicate 16 0))"
    and m0: "(0, 0) \<in> set (dispatch (new_limiter 0) 0 (replicate 16 0))"
    unfolding sixteen_dispatch by simp_all
  have n: "fst (dispatch (new_limiter 0) 0 (replicate 16 0) ! 15) = 60"
    unfolding sixteen_dispatch by code_simp
  show ?thesis
    using m m0 n limiter_bounds_each_window [of 0 "replicate 16 0" "\<lparr>last_reset = 0, num_calls = 15\<rparr>" 0]
    by (auto simp: MAX_CALLS_def PERIOD_def)
qed

text \<open>
  C3 as stated, for every sliding window of 60 seconds, fails: fifteen calls at second 59
  use up the first window, the counter is reset at second 60, and fifteen more calls start
  at once, so 30 calls start within the 60 seconds from second 59 on.
\<close>

lemma burst_dispatch:
  "map fst (dispatch (new_limiter 0) 0 burst) = replicate 15 59 @ replicate 15 60"
  unfolding burst_def by code_simp

theorem sliding_window_counterexample:
  "\<not> started_within 59 (map fst (dispatch (new_limiter 0) 0 burst)) \<le> MAX_CALLS"
  unfolding burst_dispatch by code_simp

end
